theory Spec2Isabelle
  imports Main "HOL-Library.List_Lexorder" "HOL-Library.Multiset"
begin

section \<open>Strings, the alphabet and the one-edit generator\<close>

text \<open>
  A Python \<open>str\<close> is a sequence of Unicode code points. The Telugu letters lie
  outside the range of HOL's 8-bit \<open>char\<close>, so a string is a list of code points,
  each a natural number.
\<close>

type_synonym pystr = "nat list"

text \<open>
  \<open>TELUGU_ALPHABET\<close> (spell_checker.py, line 10), code point by code point. The
  literal holds 54 code points: the conjunct written last but one is the three code
  points U+0C15 U+0C4D U+0C37, so U+0C15 and U+0C37 occur twice.
\<close>

definition TELUGU_ALPHABET :: pystr where
  "TELUGU_ALPHABET =
    [0x0C05, 0x0C06, 0x0C07, 0x0C08, 0x0C09, 0x0C0A, 0x0C0B, 0x0C60, 0x0C0E, 0x0C0F,
     0x0C10, 0x0C12, 0x0C13, 0x0C14, 0x0C02, 0x0C03, 0x0C15, 0x0C16, 0x0C17, 0x0C18,
     0x0C19, 0x0C1A, 0x0C1B, 0x0C1C, 0x0C1D, 0x0C1E, 0x0C1F, 0x0C20, 0x0C21, 0x0C22,
     0x0C23, 0x0C24, 0x0C25, 0x0C26, 0x0C27, 0x0C28, 0x0C2A, 0x0C2B, 0x0C2C, 0x0C2D,
     0x0C2E, 0x0C2F, 0x0C30, 0x0C32, 0x0C35, 0x0C36, 0x0C37, 0x0C38, 0x0C39, 0x0C33,
     0x0C15, 0x0C4D, 0x0C37, 0x0C31]"

text \<open>
  \<open>edits1\<close> (lines 12 to 20). Each comprehension of the source is one list here, in
  the source's order; a slice \<open>R[1:]\<close> is \<open>drop 1 R\<close> (a slice never raises), and the
  two indexed reads \<open>R[1]\<close> and \<open>R[0]\<close> stand under the guard \<open>len(R) > 1\<close>, as in
  the source.
\<close>

definition splits :: "pystr \<Rightarrow> (pystr \<times> pystr) list" where
  "splits word = [(take i word, drop i word). i \<leftarrow> [0..<length word + 1]]"

definition deletes :: "pystr \<Rightarrow> pystr list" where
  "deletes word = [L @ drop 1 R. (L, R) \<leftarrow> splits word, R \<noteq> []]"

definition transposes :: "pystr \<Rightarrow> pystr list" where
  "transposes word =
    [L @ [R ! 1] @ [R ! 0] @ drop 2 R. (L, R) \<leftarrow> splits word, length R > 1]"

definition replaces :: "pystr \<Rightarrow> pystr list" where
  "replaces word =
    [L @ [c] @ drop 1 R. (L, R) \<leftarrow> splits word, R \<noteq> [], c \<leftarrow> TELUGU_ALPHABET]"

definition inserts :: "pystr \<Rightarrow> pystr list" where
  "inserts word = [L @ [c] @ R. (L, R) \<leftarrow> splits word, c \<leftarrow> TELUGU_ALPHABET]"

definition edits1 :: "pystr \<Rightarrow> pystr set" where
  "edits1 word = set (deletes word @ transposes word @ replaces word @ inserts word)"

text \<open>
  A Python \<open>set\<close> is iterated in an order that the language does not fix: it follows
  the hashes of the elements, and the hash of a string changes from one process to the
  next. The order is therefore a parameter \<open>it\<close> of every function that iterates a
  set: \<open>it S\<close> is the sequence in which the elements of \<open>S\<close> come out. All that
  Python promises is that each element comes out exactly once.
\<close>

definition iteration_order :: "('a set \<Rightarrow> 'a list) \<Rightarrow> bool" where
  "iteration_order it = (\<forall>S. finite S \<longrightarrow> set (it S) = S \<and> distinct (it S))"

text \<open>
  \<open>edits2\<close> (lines 23 to 25) is a generator: the sequence of every \<open>e2\<close> of
  \<open>edits1(e1)\<close>, for every \<open>e1\<close> of \<open>edits1(word)\<close>, both sets iterated.
\<close>

definition edits2 :: "(pystr set \<Rightarrow> pystr list) \<Rightarrow> pystr \<Rightarrow> pystr list" where
  "edits2 it word = [e2. e1 \<leftarrow> it (edits1 word), e2 \<leftarrow> it (edits1 e1)]"

section \<open>The spell checker\<close>

datatype exn = FileNotFoundError | JSONDecodeError | IndexError

text \<open>
  The state of a \<open>SpellChecker\<close> object: its five attributes. \<open>WORDS\<close> is the
  \<open>Counter\<close> read from the model file, a dictionary from word to count; a Python
  \<open>int\<close> is unbounded. \<open>source_document\<close> is \<open>None\<close> until the first call of
  \<open>correct_text\<close>.
\<close>

record checker =
  model_path :: pystr
  WORDS :: "pystr \<rightharpoonup> int"
  TOTAL_WORDS :: int
  source_document :: "pystr option"
  candidates_map :: "pystr \<rightharpoonup> pystr list"

text \<open>
  What the model file holds when the constructor runs: nothing (there is no file), text
  that is not JSON, or a JSON object, given by its items.
\<close>

datatype model_source = Absent | Corrupt | Content "(pystr \<times> int) list"

text \<open>
  The body of the \<open>try\<close> block up to line 35: \<open>open\<close> raises
  \<open>FileNotFoundError\<close> when there is no file, \<open>json.load\<close> raises
  \<open>JSONDecodeError\<close> on text that is not JSON, and keeps the last value of a key
  that the object repeats.
\<close>

definition open_and_load :: "model_source \<Rightarrow> exn + (pystr \<rightharpoonup> int)" where
  "open_and_load src =
    (case src of
       Absent \<Rightarrow> Inl FileNotFoundError
     | Corrupt \<Rightarrow> Inl JSONDecodeError
     | Content items \<Rightarrow> Inr (map_of (rev items)))"

text \<open>\<open>sum(self.WORDS.values())\<close>, line 36.\<close>

definition sum_values :: "(pystr \<rightharpoonup> int) \<Rightarrow> int" where
  "sum_values d = (\<Sum>w \<in> dom d. the (d w))"

text \<open>
  \<open>__init__\<close> (lines 29 to 44). The only handler is \<open>except FileNotFoundError\<close>;
  any other exception of the \<open>try\<close> block leaves the constructor, and no object is
  built.
\<close>

definition init :: "pystr \<Rightarrow> model_source \<Rightarrow> exn + checker" where
  "init path src =
    (case open_and_load src of
       Inr d \<Rightarrow>
         Inr \<lparr>model_path = path, WORDS = d, TOTAL_WORDS = sum_values d,
              source_document = None, candidates_map = Map.empty\<rparr>
     | Inl FileNotFoundError \<Rightarrow>
         Inr \<lparr>model_path = path, WORDS = Map.empty, TOTAL_WORDS = 0,
              source_document = None, candidates_map = Map.empty\<rparr>
     | Inl e \<Rightarrow> Inl e)"

text \<open>The spec's \<open>size()\<close> is \<open>len(self.WORDS)\<close>, its \<open>total()\<close> is \<open>TOTAL_WORDS\<close>.\<close>

definition size_of :: "checker \<Rightarrow> nat" where
  "size_of c = card (dom (WORDS c))"

definition total :: "checker \<Rightarrow> int" where
  "total c = TOTAL_WORDS c"

text \<open>\<open>known\<close> (lines 46 to 48): the members of \<open>words\<close> that are keys of \<open>WORDS\<close>.\<close>

definition known :: "(pystr \<rightharpoonup> int) \<Rightarrow> pystr set \<Rightarrow> pystr set" where
  "known W words = {w \<in> words. w \<in> dom W}"

text \<open>
  \<open>sorted(items, key=lambda item: item[1], reverse=True)\<close>, lines 66 to 70. Python's
  sort is stable, and stays so under \<open>reverse=True\<close>: items with equal keys keep the
  order they had in the input. On integer keys that is the stable ascending sort by the
  negated key, which \<open>sort_key\<close> (an insertion sort) is.
\<close>

definition sorted_by_freq_reverse :: "(pystr \<times> int) list \<Rightarrow> (pystr \<times> int) list" where
  "sorted_by_freq_reverse items = sort_key (\<lambda>item. - snd item) items"

text \<open>\<open>self.WORDS.get(c, 0)\<close>.\<close>

definition WORDS_get :: "(pystr \<rightharpoonup> int) \<Rightarrow> pystr \<Rightarrow> int" where
  "WORDS_get W c = (case W c of None \<Rightarrow> 0 | Some f \<Rightarrow> f)"

text \<open>
  \<open>get_candidates\<close>, lines 56 to 61: the set \<open>candidates\<close> as it stands at line 63,
  after the two updates.
\<close>

definition candidate_set :: "(pystr set \<Rightarrow> pystr list) \<Rightarrow> (pystr \<rightharpoonup> int) \<Rightarrow> pystr \<Rightarrow> pystr set" where
  "candidate_set it W word =
    (let candidates = known W (set [word]);
         candidates = candidates \<union> known W (edits1 word)
     in if candidates = {} \<and> word \<notin> dom W
        then candidates \<union> known W (set (edits2 it word))
        else candidates)"

text \<open>\<open>get_candidates\<close>, lines 63 to 72.\<close>

definition get_candidates :: "(pystr set \<Rightarrow> pystr list) \<Rightarrow> (pystr \<rightharpoonup> int) \<Rightarrow> pystr \<Rightarrow> (pystr \<times> int) list" where
  "get_candidates it W word =
    (let candidates = candidate_set it W word
     in if candidates = {} then [(word, 0)]
        else sorted_by_freq_reverse [(c, WORDS_get W c). c \<leftarrow> it candidates])"

text \<open>
  \<open>correct_word\<close> (lines 74 to 83). \<open>ranked_candidates[0]\<close> raises \<open>IndexError\<close>
  on an empty list.
\<close>

definition correct_word :: "(pystr set \<Rightarrow> pystr list) \<Rightarrow> (pystr \<rightharpoonup> int) \<Rightarrow> pystr \<Rightarrow> exn + (pystr \<times> (pystr \<times> int) list)" where
  "correct_word it W word =
    (let ranked_candidates = get_candidates it W word
     in case ranked_candidates of
          [] \<Rightarrow> Inl IndexError
        | (best_correction, _) # _ \<Rightarrow> Inr (best_correction, ranked_candidates))"

section \<open>Correcting a text\<close>

text \<open>The character class of the Telugu block, U+0C00 to U+0C7F.\<close>

definition telugu :: "nat \<Rightarrow> bool" where
  "telugu c = (0x0C00 \<le> c \<and> c \<le> 0x0C7F)"

text \<open>
  \<open>re.findall\<close> at line 93, with the pattern of two alternatives: one or more code
  points of the Telugu block, or one or more non-word characters. The scan goes from
  left to right. Where the first alternative matches it takes the longest run of
  Telugu-block code points; otherwise, where the second matches, the longest run of
  non-word characters (a Telugu sign is one, so such a run can go on into the block);
  where neither matches the scan moves on by one character, and that character is in
  no match. The class of word characters is a table of the regular-expression engine
  (the alphanumeric code points of Unicode and the underscore), which the repository
  does not hold: it is the parameter \<open>isw\<close>.
\<close>

function findall :: "(nat \<Rightarrow> bool) \<Rightarrow> pystr \<Rightarrow> pystr list" where
  "findall isw [] = []"
| "findall isw (c # cs) =
    (if telugu c then
       (c # takeWhile telugu cs) # findall isw (dropWhile telugu cs)
     else if \<not> isw c then
       (c # takeWhile (\<lambda>x. \<not> isw x) cs) # findall isw (dropWhile (\<lambda>x. \<not> isw x) cs)
     else findall isw cs)"
  by pat_completeness auto
termination
  by (relation "measure (\<lambda>(isw, cs). length cs)")
     (auto simp: less_Suc_eq_le length_dropWhile_le)

text \<open>
  \<open>re.match\<close> at line 98, with the pattern of one or more code points of the
  Telugu block: a match at the start of \<open>part\<close>, so the test is whether the first
  character is in the Telugu block.
\<close>

definition match_telugu :: "pystr \<Rightarrow> bool" where
  "match_telugu part = (case part of [] \<Rightarrow> False | c # _ \<Rightarrow> telugu c)"

text \<open>
  The loop of \<open>correct_text\<close> (lines 97 to 109) over the parts still to do, with the
  two values it updates: \<open>corrected_parts\<close> and \<open>self.candidates_map\<close>. An exception
  of \<open>correct_word\<close> ends the loop.
\<close>

fun correct_parts :: "(pystr set \<Rightarrow> pystr list) \<Rightarrow> (pystr \<rightharpoonup> int) \<Rightarrow> pystr list \<Rightarrow>
    pystr list \<times> (pystr \<rightharpoonup> pystr list) \<Rightarrow> exn + (pystr list \<times> (pystr \<rightharpoonup> pystr list))" where
  "correct_parts it W [] (corrected_parts, cmap) = Inr (corrected_parts, cmap)"
| "correct_parts it W (part # parts) (corrected_parts, cmap) =
    (if match_telugu part then
       (case correct_word it W part of
          Inl e \<Rightarrow> Inl e
        | Inr (best_correction, candidates_with_freq) \<Rightarrow>
            if best_correction \<noteq> part then
              correct_parts it W parts
                (corrected_parts @ [best_correction],
                 cmap(part \<mapsto> map fst candidates_with_freq))
            else correct_parts it W parts (corrected_parts @ [part], cmap))
     else correct_parts it W parts (corrected_parts @ [part], cmap))"

text \<open>
  \<open>correct_text\<close> (lines 85 to 113): the value returned, and the state of the object
  after the call.
\<close>

definition correct_text :: "(pystr set \<Rightarrow> pystr list) \<Rightarrow> (nat \<Rightarrow> bool) \<Rightarrow> checker \<Rightarrow> pystr \<Rightarrow>
    exn + ((pystr \<times> (pystr \<rightharpoonup> pystr list)) \<times> checker)" where
  "correct_text it isw self text =
    (let self = self\<lparr>source_document := Some text, candidates_map := Map.empty\<rparr>;
         parts = findall isw text
     in case correct_parts it (WORDS self) parts ([], candidates_map self) of
          Inl e \<Rightarrow> Inl e
        | Inr (corrected_parts, cmap) \<Rightarrow>
            Inr ((concat corrected_parts, cmap), self\<lparr>candidates_map := cmap\<rparr>))"

section \<open>Inputs of the examples\<close>

text \<open>
  Small frequency models over the letters U+0C05 to U+0C08, which are the first four
  symbols of the alphabet. In \<open>example_model\<close> a known word has a more frequent
  neighbour one replacement away; in \<open>tied_model\<close> the two words have the same
  count; in \<open>far_model\<close> the second word is two insertions away from the first; in
  \<open>remote_model\<close> the only word is three insertions away from a one-letter word.
\<close>

definition example_model :: "pystr \<rightharpoonup> int" where
  "example_model = [[0x0C05] \<mapsto> 1, [0x0C06] \<mapsto> 5]"

definition tied_model :: "pystr \<rightharpoonup> int" where
  "tied_model = [[0x0C05] \<mapsto> 1, [0x0C06] \<mapsto> 1]"

definition far_model :: "pystr \<rightharpoonup> int" where
  "far_model = [[0x0C05] \<mapsto> 1, [0x0C05, 0x0C06, 0x0C07] \<mapsto> 9]"

definition remote_model :: "pystr \<rightharpoonup> int" where
  "remote_model = [[0x0C05, 0x0C06, 0x0C07, 0x0C08] \<mapsto> 3]"

text \<open>
  A word-character class for the examples: the class of word characters on the ASCII
  range (digits, letters and the underscore) and on the Telugu letters U+0C05 to U+0C39
  (the assigned code points of that range, all of category Lo). On these code points,
  on the space, on ASCII punctuation and on the Telugu signs it is the class of
  Python's engine; the general theorems hold for every class.
\<close>

definition word_class :: "nat \<Rightarrow> bool" where
  "word_class c =
    ((0x30 \<le> c \<and> c \<le> 0x39) \<or> (0x41 \<le> c \<and> c \<le> 0x5A) \<or> c = 0x5F
     \<or> (0x61 \<le> c \<and> c \<le> 0x7A)
     \<or> (0x0C05 \<le> c \<and> c \<le> 0x0C0C) \<or> (0x0C0E \<le> c \<and> c \<le> 0x0C10)
     \<or> (0x0C12 \<le> c \<and> c \<le> 0x0C28) \<or> (0x0C2A \<le> c \<and> c \<le> 0x0C39))"

text \<open>The best correction in what \<open>correct_word\<close> returns, when it returns.\<close>

definition best_of :: "exn + (pystr \<times> (pystr \<times> int) list) \<Rightarrow> pystr option" where
  "best_of r = (case r of Inl e \<Rightarrow> None | Inr (best_correction, ranked) \<Rightarrow> Some best_correction)"

text \<open>\<open>MODEL_PATH\<close>, line 210: the file name \<open>telugu_word_model.json\<close>.\<close>

definition MODEL_PATH :: pystr where
  "MODEL_PATH =
    [0x74, 0x65, 0x6C, 0x75, 0x67, 0x75, 0x5F, 0x77, 0x6F, 0x72, 0x64, 0x5F, 0x6D, 0x6F,
     0x64, 0x65, 0x6C, 0x2E, 0x6A, 0x73, 0x6F, 0x6E]"

text \<open>
  A checker over \<open>example_model\<close> after a call of \<open>correct_text\<close> on the one-letter
  text U+0C07: that word is unknown, its known one-edit neighbours are the two words of
  the model, and the more frequent one replaced it.
\<close>

definition used_checker :: checker where
  "used_checker =
    \<lparr>model_path = MODEL_PATH, WORDS = example_model, TOTAL_WORDS = 6,
     source_document = Some [0x0C07],
     candidates_map = [[0x0C07] \<mapsto> [[0x0C06], [0x0C05]]]\<rparr>"

section \<open>The one-edit generator: what it generates\<close>

text \<open>The alphabet string has 54 code points, 52 of them distinct.\<close>

lemma alphabet_size:
  "length TELUGU_ALPHABET = 54 \<and> card (set TELUGU_ALPHABET) = 52"
  unfolding TELUGU_ALPHABET_def List.card_set by simp

lemma concat_map_if_single:
  "concat (map (\<lambda>x. if P x then [f x] else []) xs) = map f (filter P xs)"
  by (induction xs) simp_all

lemma concat_map_if_list:
  "concat (map (\<lambda>x. if P x then g x else []) xs) = concat (map g (filter P xs))"
  by (induction xs) simp_all

lemma filter_less_upt: "m \<le> n \<Longrightarrow> filter (\<lambda>i. i < m) [0..<n] = [0..<m]"
proof (induction n)
  case 0
  then show ?case by simp
next
  case (Suc n)
  show ?case
  proof (cases "m = Suc n")
    case True
    then show ?thesis by (simp add: filter_id_conv del: upt_Suc)
  next
    case False
    with Suc show ?thesis by simp
  qed
qed

lemma deletes_eq:
  "deletes word = map (\<lambda>i. take i word @ drop (Suc i) word) [0..<length word]"
proof -
  have "deletes word =
    map (\<lambda>i. take i word @ drop (Suc i) word) (filter (\<lambda>i. i < length word) [0..<Suc (length word)])"
    unfolding deletes_def splits_def
    by (simp add: o_def concat_map_if_single not_le del: upt_Suc)
  then show ?thesis by (simp add: filter_less_upt del: upt_Suc)
qed

lemma transposes_eq:
  "transposes word =
    map (\<lambda>i. take i word @ [word ! Suc i, word ! i] @ drop (i + 2) word) [0..<length word - 1]"
proof -
  have "transposes word =
    map (\<lambda>i. take i word @ [drop i word ! 1] @ [drop i word ! 0] @ drop 2 (drop i word))
      (filter (\<lambda>i. i < length word - 1) [0..<Suc (length word)])"
    unfolding transposes_def splits_def
    by (simp add: o_def concat_map_if_single less_diff_conv del: upt_Suc)
  also have "\<dots> = map (\<lambda>i. take i word @ [drop i word ! 1] @ [drop i word ! 0] @ drop 2 (drop i word))
      [0..<length word - 1]"
    by (simp add: filter_less_upt del: upt_Suc)
  also have "\<dots> = map (\<lambda>i. take i word @ [word ! Suc i, word ! i] @ drop (i + 2) word) [0..<length word - 1]"
    by (rule map_cong) (auto simp: add.commute)
  finally show ?thesis .
qed

lemma replaces_eq:
  "replaces word =
    concat (map (\<lambda>i. map (\<lambda>c. word[i := c]) TELUGU_ALPHABET) [0..<length word])"
proof -
  have "replaces word =
    concat (map (\<lambda>i. map (\<lambda>c. take i word @ [c] @ drop (Suc i) word) TELUGU_ALPHABET)
      (filter (\<lambda>i. i < length word) [0..<Suc (length word)]))"
    unfolding replaces_def splits_def
    by (simp add: o_def concat_map_if_list not_le del: upt_Suc)
  also have "\<dots> = concat (map (\<lambda>i. map (\<lambda>c. take i word @ [c] @ drop (Suc i) word) TELUGU_ALPHABET)
      [0..<length word])"
    by (simp add: filter_less_upt del: upt_Suc)
  also have "\<dots> = concat (map (\<lambda>i. map (\<lambda>c. word[i := c]) TELUGU_ALPHABET) [0..<length word])"
    by (rule arg_cong [where f = concat], rule map_cong) (auto simp: upd_conv_take_nth_drop)
  finally show ?thesis .
qed

lemma inserts_eq:
  "inserts word =
    concat (map (\<lambda>i. map (\<lambda>c. take i word @ [c] @ drop i word) TELUGU_ALPHABET)
      [0..<length word + 1])"
  unfolding inserts_def splits_def by (simp add: o_def del: upt_Suc)

lemma length_concat_const:
  "(\<And>x. x \<in> set xs \<Longrightarrow> length (f x) = k) \<Longrightarrow> length (concat (map f xs)) = length xs * k"
  by (induction xs) simp_all

lemma length_deletes: "length (deletes word) = length word"
  by (simp add: deletes_eq)

lemma length_transposes: "length (transposes word) = length word - 1"
  by (simp add: transposes_eq)

lemma length_replaces: "length (replaces word) = length word * length TELUGU_ALPHABET"
  by (simp add: replaces_eq length_concat_const del: upt_Suc)

lemma length_inserts: "length (inserts word) = (length word + 1) * length TELUGU_ALPHABET"
  by (simp add: inserts_eq length_concat_const del: upt_Suc)

lemma card_edits1_le:
  "card (edits1 word) \<le> length word + (length word - 1) + length word * length TELUGU_ALPHABET
      + (length word + 1) * length TELUGU_ALPHABET"
proof -
  have "card (edits1 word) \<le> length (deletes word @ transposes word @ replaces word @ inserts word)"
    unfolding edits1_def by (rule card_length)
  then show ?thesis
    by (simp add: length_deletes length_transposes length_replaces length_inserts)
qed

lemma edits1_empty: "edits1 [] = (\<lambda>c. [c]) ` set TELUGU_ALPHABET"
  by (simp add: edits1_def deletes_eq transposes_eq replaces_eq inserts_eq)

lemma replace_self_in_replaces:
  assumes "i < length word" and "word ! i \<in> set TELUGU_ALPHABET"
  shows "word \<in> set (replaces word)"
proof -
  have "word \<in> (\<lambda>c. word[i := c]) ` set TELUGU_ALPHABET"
    by (rule image_eqI [where x = "word ! i"]) (simp_all add: assms)
  then have "word \<in> set (map (\<lambda>c. word[i := c]) TELUGU_ALPHABET)" by simp
  with assms(1) show ?thesis unfolding replaces_eq by auto
qed

lemma finite_edits1: "finite (edits1 word)"
  by (simp add: edits1_def)

lemma edits1_length_le:
  assumes "e \<in> edits1 word"
  shows "length e \<le> Suc (length word)"
  using assms unfolding edits1_def deletes_eq transposes_eq replaces_eq inserts_eq
  by auto

section \<open>Known words, candidate sets and iteration orders\<close>

lemma known_subset: "known W S \<subseteq> S"
  by (auto simp: known_def)

lemma finite_known: "finite S \<Longrightarrow> finite (known W S)"
  using known_subset by (rule finite_subset)

lemma known_single: "known W {word} = (if word \<in> dom W then {word} else {})"
  by (auto simp: known_def)

lemma known_set_filter: "known W (set xs) = set (filter (\<lambda>w. w \<in> dom W) xs)"
  by (auto simp: known_def)

lemma finite_candidate_set: "finite (candidate_set it W word)"
  by (simp add: candidate_set_def Let_def finite_known finite_edits1)

lemma candidate_set_tier01:
  "known W (set [word]) \<union> known W (edits1 word) \<noteq> {} \<Longrightarrow>
   candidate_set it W word = known W (set [word]) \<union> known W (edits1 word)"
  by (auto simp: candidate_set_def Let_def)

lemma iteration_order_sorted_list_of_set:
  "iteration_order (sorted_list_of_set :: pystr set \<Rightarrow> pystr list)"
  by (simp add: iteration_order_def)

lemma iteration_order_rev:
  "iteration_order it \<Longrightarrow> iteration_order (rev \<circ> it)"
  by (simp add: iteration_order_def)

lemma set_edits2:
  assumes "iteration_order it"
  shows "set (edits2 it word) = (\<Union>e1 \<in> edits1 word. edits1 e1)"
proof -
  have it: "set (it (edits1 w)) = edits1 w" for w
    using assms finite_edits1 by (simp add: iteration_order_def)
  show ?thesis by (simp add: edits2_def it)
qed

lemma edits2_length_le:
  assumes "iteration_order it" and "e2 \<in> set (edits2 it word)"
  shows "length e2 \<le> length word + 2"
proof -
  from assms obtain e1 where "e1 \<in> edits1 word" and "e2 \<in> edits1 e1"
    by (auto simp: set_edits2)
  then have "length e1 \<le> Suc (length word)" and "length e2 \<le> Suc (length e1)"
    by (auto dest: edits1_length_le)
  then show ?thesis by simp
qed

lemma set_get_candidates:
  assumes "iteration_order it" and "candidate_set it W word \<noteq> {}"
  shows "set (get_candidates it W word) = (\<lambda>c. (c, WORDS_get W c)) ` candidate_set it W word"
proof -
  have "set (it (candidate_set it W word)) = candidate_set it W word"
    using assms(1) finite_candidate_set by (simp add: iteration_order_def)
  with assms(2) show ?thesis
    by (simp add: get_candidates_def Let_def sorted_by_freq_reverse_def)
qed

lemma get_candidates_not_Nil:
  assumes "iteration_order it"
  shows "get_candidates it W word \<noteq> []"
proof (cases "candidate_set it W word = {}")
  case True
  then show ?thesis by (simp add: get_candidates_def)
next
  case False
  with assms have "set (get_candidates it W word) \<noteq> {}"
    by (simp add: set_get_candidates)
  then show ?thesis by auto
qed

lemma correct_word_hd:
  assumes "get_candidates it W word \<noteq> []"
  shows "correct_word it W word =
    Inr (fst (hd (get_candidates it W word)), get_candidates it W word)"
  using assms by (cases "get_candidates it W word") (auto simp: correct_word_def Let_def)

lemma two_element_order:
  assumes "set xs = {a, b}" and "distinct xs" and "a \<noteq> b"
  shows "xs = [a, b] \<or> xs = [b, a]"
proof -
  have "length xs = card {a, b}"
    using assms(1,2) distinct_card by fastforce
  with assms(3) have "length xs = 2" by simp
  then obtain x y where xs: "xs = [x, y]"
    by (cases xs; cases "tl xs") auto
  with assms(1) have "{x, y} = {a, b}" by simp
  with xs show ?thesis by (auto simp: doubleton_eq_iff)
qed

section \<open>The ranking\<close>

lemma candidate_set_order_free:
  assumes "iteration_order it" and "iteration_order it'"
  shows "candidate_set it' W word = candidate_set it W word"
  by (simp add: candidate_set_def Let_def set_edits2 [OF assms(1)] set_edits2 [OF assms(2)])

lemma frequencies_non_increasing:
  "sorted_wrt (\<lambda>x y. snd y \<le> snd x) (sorted_by_freq_reverse items)"
proof -
  have "sorted (map (\<lambda>item. - snd item) (sort_key (\<lambda>item. - snd item) items))"
    by (rule sorted_sort_key)
  then show ?thesis by (simp add: sorted_by_freq_reverse_def sorted_wrt_map)
qed

lemma ties_keep_input_order:
  "filter (\<lambda>item. snd item = k) (sorted_by_freq_reverse items) = filter (\<lambda>item. snd item = k) items"
  using sort_key_stable [of "\<lambda>item. - snd item" "- k" items]
  by (simp add: sorted_by_freq_reverse_def)

lemma frequencies_of_sorted:
  assumes "mset xs = mset ys"
  shows "map snd (sorted_by_freq_reverse xs) = map snd (sorted_by_freq_reverse ys)"
proof -
  let ?f = "\<lambda>item :: pystr \<times> int. - snd item"
  have key: "map ?f (sort_key ?f zs) = sort (map ?f xs)" if "mset zs = mset xs" for zs
  proof (rule properties_for_sort [symmetric])
    have "mset (map ?f (sort_key ?f zs)) = image_mset ?f (mset zs)" by simp
    with that show "mset (map ?f (sort_key ?f zs)) = mset (map ?f xs)" by simp
    show "sorted (map ?f (sort_key ?f zs))" by (rule sorted_sort_key)
  qed
  have "map ?f (sort_key ?f xs) = map ?f (sort_key ?f ys)"
    using key [of xs] key [of ys] assms by simp
  then have "map uminus (map ?f (sort_key ?f xs)) = map uminus (map ?f (sort_key ?f ys))"
    by simp
  then show ?thesis by (simp add: sorted_by_freq_reverse_def o_def)
qed

section \<open>The examples, evaluated\<close>

lemmas edits1_eval = deletes_def transposes_def replaces_def inserts_def splits_def
  TELUGU_ALPHABET_def dom_def

lemma known_edits1_example:
  "known example_model (edits1 [0x0C05]) = {[0x0C05], [0x0C06]}"
  unfolding edits1_def known_set_filter
  by (simp add: edits1_eval example_model_def)

lemma known_edits1_example2:
  "known example_model (edits1 [0x0C06]) = {[0x0C05], [0x0C06]}"
  unfolding edits1_def known_set_filter
  by (simp add: edits1_eval example_model_def)

lemma known_edits1_tied:
  "known tied_model (edits1 [0x0C05]) = {[0x0C05], [0x0C06]}"
  unfolding edits1_def known_set_filter
  by (simp add: edits1_eval tied_model_def)

lemma known_edits1_far:
  "known far_model (edits1 [0x0C05]) = {[0x0C05]}"
  unfolding edits1_def known_set_filter
  by (simp add: edits1_eval far_model_def)

lemma known_edits1_remote: "known remote_model (edits1 [0x0C05]) = {}"
proof -
  have "length e \<le> 2" if "e \<in> edits1 [0x0C05]" for e
    using edits1_length_le [OF that] by simp
  then show ?thesis by (fastforce simp: known_def remote_model_def dom_def split: if_splits)
qed

lemma known_edits2_remote:
  assumes "iteration_order it"
  shows "known remote_model (set (edits2 it [0x0C05])) = {}"
proof -
  have "length e \<le> 3" if "e \<in> set (edits2 it [0x0C05])" for e
    using edits2_length_le [OF assms that] by simp
  then show ?thesis by (fastforce simp: known_def remote_model_def dom_def split: if_splits)
qed

lemma candidate_set_example:
  "candidate_set it example_model [0x0C05] = {[0x0C05], [0x0C06]}"
proof -
  have "[0x0C05] \<in> dom example_model" by (simp add: example_model_def)
  then show ?thesis
    by (auto simp: candidate_set_def Let_def known_edits1_example known_single)
qed

lemma candidate_set_example2:
  "candidate_set it example_model [0x0C06] = {[0x0C05], [0x0C06]}"
proof -
  have "[0x0C06] \<in> dom example_model" by (simp add: example_model_def)
  then show ?thesis
    by (auto simp: candidate_set_def Let_def known_edits1_example2 known_single)
qed

lemma candidate_set_tied:
  "candidate_set it tied_model [0x0C05] = {[0x0C05], [0x0C06]}"
proof -
  have "[0x0C05] \<in> dom tied_model" by (simp add: tied_model_def)
  then show ?thesis
    by (auto simp: candidate_set_def Let_def known_edits1_tied known_single)
qed

lemma far_word_in_edits2:
  assumes "iteration_order it"
  shows "[0x0C05, 0x0C06, 0x0C07] \<in> set (edits2 it [0x0C05])"
proof -
  have "[0x0C05, 0x0C06] \<in> edits1 [0x0C05]"
    unfolding edits1_def by (simp add: edits1_eval)
  moreover have "[0x0C05, 0x0C06, 0x0C07] \<in> edits1 [0x0C05, 0x0C06]"
    unfolding edits1_def by (simp add: edits1_eval)
  ultimately show ?thesis using assms by (auto simp: set_edits2)
qed

lemma get_candidates_tied:
  "get_candidates it tied_model [0x0C05] =
    sorted_by_freq_reverse (map (\<lambda>c. (c, WORDS_get tied_model c)) (it {[0x0C05], [0x0C06]}))"
  by (simp add: get_candidates_def candidate_set_tied)

section \<open>The loop of \<open>correct_text\<close> and the segmentation\<close>

lemma correct_parts_spec:
  assumes "iteration_order it"
  shows "\<exists>cp' cmap'. correct_parts it W parts (cp, cmap) = Inr (cp', cmap')
    \<and> (\<forall>w. cmap' w =
          (if w \<in> set parts \<and> match_telugu w \<and> best_of (correct_word it W w) \<noteq> Some w
           then Some (map fst (get_candidates it W w)) else cmap w))"
proof (induction parts arbitrary: cp cmap)
  case Nil
  then show ?case by simp
next
  case (Cons part parts)
  have cw: "correct_word it W part =
      Inr (fst (hd (get_candidates it W part)), get_candidates it W part)"
    using get_candidates_not_Nil [OF assms] by (rule correct_word_hd)
  have best: "best_of (correct_word it W part) = Some (fst (hd (get_candidates it W part)))"
    by (simp add: cw best_of_def)
  show ?case
  proof (cases "match_telugu part \<and> fst (hd (get_candidates it W part)) \<noteq> part")
    case False
    then have step: "correct_parts it W (part # parts) (cp, cmap) =
        correct_parts it W parts (cp @ [part], cmap)"
      by (auto simp: cw)
    from Cons.IH [of "cp @ [part]" cmap] obtain cp' cmap' where
      run: "correct_parts it W parts (cp @ [part], cmap) = Inr (cp', cmap')"
      and entries: "\<And>w. cmap' w =
          (if w \<in> set parts \<and> match_telugu w \<and> best_of (correct_word it W w) \<noteq> Some w
           then Some (map fst (get_candidates it W w)) else cmap w)"
      by blast
    have "cmap' w =
          (if w \<in> set (part # parts) \<and> match_telugu w \<and> best_of (correct_word it W w) \<noteq> Some w
           then Some (map fst (get_candidates it W w)) else cmap w)" for w
      using False best by (cases "w = part") (auto simp: entries)
    with step run show ?thesis by simp
  next
    case True
    let ?cmap = "cmap(part \<mapsto> map fst (get_candidates it W part))"
    let ?cp = "cp @ [fst (hd (get_candidates it W part))]"
    from True have step: "correct_parts it W (part # parts) (cp, cmap) =
        correct_parts it W parts (?cp, ?cmap)"
      by (simp add: cw)
    from Cons.IH [of ?cp ?cmap] obtain cp' cmap' where
      run: "correct_parts it W parts (?cp, ?cmap) = Inr (cp', cmap')"
      and entries: "\<And>w. cmap' w =
          (if w \<in> set parts \<and> match_telugu w \<and> best_of (correct_word it W w) \<noteq> Some w
           then Some (map fst (get_candidates it W w)) else ?cmap w)"
      by blast
    have "cmap' w =
          (if w \<in> set (part # parts) \<and> match_telugu w \<and> best_of (correct_word it W w) \<noteq> Some w
           then Some (map fst (get_candidates it W w)) else cmap w)" for w
      using True best by (cases "w = part") (auto simp: entries)
    with step run show ?thesis by simp
  qed
qed

lemma findall_lossless:
  assumes "\<forall>c \<in> set s. telugu c \<or> \<not> isw c"
  shows "concat (findall isw s) = s"
  using assms
proof (induction isw s rule: findall.induct)
  case (1 isw)
  then show ?case by simp
next
  case (2 isw c cs)
  have rest: "\<forall>x \<in> set (dropWhile P cs). telugu x \<or> \<not> isw x" for P
    using 2(4) by (auto dest: set_dropWhileD)
  show ?case
  proof (cases "telugu c")
    case True
    with 2(1) rest show ?thesis by simp
  next
    case False
    with 2(4) have "\<not> isw c" by simp
    with False 2(2) rest show ?thesis by simp
  qed
qed

lemma findall_example:
  "findall word_class [0x0C05, 0x20, 0x0C06] = [[0x0C05], [0x20], [0x0C06]]"
  by (simp add: telugu_def word_class_def)

lemma get_candidates_example:
  "get_candidates sorted_list_of_set example_model [0x0C05] = [([0x0C06], 5), ([0x0C05], 1)]"
  by (simp add: get_candidates_def candidate_set_example sorted_by_freq_reverse_def WORDS_get_def)
    (simp add: example_model_def)

lemma get_candidates_example2:
  "get_candidates sorted_list_of_set example_model [0x0C06] = [([0x0C06], 5), ([0x0C05], 1)]"
  by (simp add: get_candidates_def candidate_set_example2 sorted_by_freq_reverse_def WORDS_get_def)
    (simp add: example_model_def)

section \<open>The claims\<close>

text \<open>
  Claim C1 says that a word that is a key of the frequency model is its own best
  correction. The docstring of \<open>get_candidates\<close> ranks by minimal edit distance
  first and by frequency second, but the code sorts the known word and its known
  one-edit neighbours together, by frequency alone. In \<open>example_model\<close> the known
  word U+0C05 (count 1) has the known neighbour U+0C06 (count 5): under every
  iteration order \<open>correct_word\<close> returns U+0C06 as the best correction of U+0C05.
\<close>

theorem known_word_not_best:
  assumes "iteration_order it"
  shows "[0x0C05] \<in> dom example_model
    \<and> correct_word it example_model [0x0C05] = Inr ([0x0C06], [([0x0C06], 5), ([0x0C05], 1)])"
proof -
  have "finite {[0x0C05::nat], [0x0C06]}" by simp
  with assms have "set (it {[0x0C05::nat], [0x0C06]}) = {[0x0C05], [0x0C06]}"
    and "distinct (it {[0x0C05::nat], [0x0C06]})"
    unfolding iteration_order_def by blast+
  then have "it {[0x0C05::nat], [0x0C06]} = [[0x0C05], [0x0C06]]
      \<or> it {[0x0C05::nat], [0x0C06]} = [[0x0C06], [0x0C05]]"
    by (intro two_element_order) simp_all
  moreover have "get_candidates it example_model [0x0C05] =
      sorted_by_freq_reverse
        (map (\<lambda>c. (c, WORDS_get example_model c)) (it {[0x0C05], [0x0C06]}))"
    by (simp add: get_candidates_def candidate_set_example)
  ultimately have "get_candidates it example_model [0x0C05] = [([0x0C06], 5), ([0x0C05], 1)]"
    by (auto simp: sorted_by_freq_reverse_def WORDS_get_def example_model_def)
  then show ?thesis by (simp add: correct_word_def example_model_def)
qed

theorem known_word_not_best_witness:
  "iteration_order (sorted_list_of_set :: pystr set \<Rightarrow> pystr list)
   \<and> correct_word sorted_list_of_set example_model [0x0C05]
       = Inr ([0x0C06], [([0x0C06], 5), ([0x0C05], 1)])"
  using known_word_not_best [OF iteration_order_sorted_list_of_set]
  by (simp add: iteration_order_sorted_list_of_set)

text \<open>
  Claim C2 says that the spans of \<open>correct_text\<close> partition the text without loss.
  The pattern matches runs of Telugu-block characters and runs of non-word characters;
  a word character outside the Telugu block (a Latin letter, a digit) is in neither, so
  \<open>findall\<close> skips it and the corrected text lacks it. On the text \<open>a1\<close> there is
  no span at all and the corrected text is empty. (The lemma \<open>findall_lossless\<close>
  shows that nothing is lost on a text without such characters.)
\<close>

theorem correct_text_drops_word_characters:
  assumes "isw 0x61" and "isw 0x31"
  shows "findall isw [0x61, 0x31] = []
    \<and> correct_text it isw self [0x61, 0x31] =
        Inr (([], Map.empty),
             self\<lparr>source_document := Some [0x61, 0x31], candidates_map := Map.empty\<rparr>)"
  using assms by (simp add: correct_text_def telugu_def)

theorem correct_text_drops_word_characters_witness:
  "word_class 0x61 \<and> word_class 0x31
   \<and> correct_text sorted_list_of_set word_class used_checker [0x61, 0x31] =
        Inr (([], Map.empty),
             used_checker\<lparr>source_document := Some [0x61, 0x31], candidates_map := Map.empty\<rparr>)"
proof -
  have a: "word_class 0x61" and b: "word_class 0x31" by (simp_all add: word_class_def)
  show ?thesis
    using a b correct_text_drops_word_characters [OF a b, of sorted_list_of_set used_checker]
    by simp
qed

text \<open>
  Claim C3. For a word of length \<open>n\<close> and the alphabet string of length \<open>A\<close>,
  \<open>edits1\<close> is the set of the strings of four lists: the \<open>n\<close> deletions of one
  character, the \<open>n - 1\<close> transpositions of two adjacent characters (none when
  \<open>n < 2\<close>: the subtraction on natural numbers stops at 0), the \<open>n * A\<close>
  replacements of one character by an alphabet symbol and the \<open>(n + 1) * A\<close>
  insertions of an alphabet symbol at each position. Hence the set has at most
  \<open>n + (n - 1) + n * A + (n + 1) * A\<close> elements, and \<open>edits1\<close> of the empty string
  is the set of the one-symbol strings of the alphabet.
\<close>

theorem edits1_contract:
  "deletes word = map (\<lambda>i. take i word @ drop (Suc i) word) [0..<length word]
   \<and> transposes word =
       map (\<lambda>i. take i word @ [word ! Suc i, word ! i] @ drop (i + 2) word) [0..<length word - 1]
   \<and> replaces word =
       concat (map (\<lambda>i. map (\<lambda>c. word[i := c]) TELUGU_ALPHABET) [0..<length word])
   \<and> inserts word =
       concat (map (\<lambda>i. map (\<lambda>c. take i word @ [c] @ drop i word) TELUGU_ALPHABET)
         [0..<length word + 1])
   \<and> length (deletes word) = length word
   \<and> length (transposes word) = length word - 1
   \<and> length (replaces word) = length word * length TELUGU_ALPHABET
   \<and> length (inserts word) = (length word + 1) * length TELUGU_ALPHABET
   \<and> edits1 word =
       set (deletes word) \<union> set (transposes word) \<union> set (replaces word) \<union> set (inserts word)
   \<and> card (edits1 word) \<le>
       length word + (length word - 1) + length word * length TELUGU_ALPHABET
         + (length word + 1) * length TELUGU_ALPHABET
   \<and> edits1 [] = (\<lambda>c. [c]) ` set TELUGU_ALPHABET"
proof -
  have "edits1 word =
      set (deletes word) \<union> set (transposes word) \<union> set (replaces word) \<union> set (inserts word)"
    by (auto simp: edits1_def)
  with deletes_eq transposes_eq replaces_eq inserts_eq length_deletes length_transposes
    length_replaces length_inserts card_edits1_le edits1_empty
  show ?thesis by blast
qed

text \<open>
  Claim C4. When the word is known or has a known one-edit neighbour, the candidate set
  is the set of those tier-0 and tier-1 words alone (the two-edit tier is not added),
  the words of the ranked list are exactly these, and so no word of \<open>edits2\<close> that
  is outside the tiers 0 and 1 is in the list.
\<close>

theorem tier_precedence:
  assumes "iteration_order it"
    and "known W (set [word]) \<union> known W (edits1 word) \<noteq> {}"
  shows "candidate_set it W word = known W (set [word]) \<union> known W (edits1 word)
    \<and> fst ` set (get_candidates it W word) = known W (set [word]) \<union> known W (edits1 word)
    \<and> (\<forall>e2 \<in> set (edits2 it word).
          e2 \<notin> known W (set [word]) \<union> known W (edits1 word) \<longrightarrow>
          e2 \<notin> fst ` set (get_candidates it W word))"
proof -
  have cs: "candidate_set it W word = known W (set [word]) \<union> known W (edits1 word)"
    using assms(2) by (rule candidate_set_tier01)
  with assms have "set (get_candidates it W word) =
      (\<lambda>c. (c, WORDS_get W c)) ` (known W (set [word]) \<union> known W (edits1 word))"
    by (simp add: set_get_candidates)
  then have "fst ` set (get_candidates it W word) = known W (set [word]) \<union> known W (edits1 word)"
    by (simp add: image_image)
  with cs show ?thesis by simp
qed

theorem tier_precedence_witness:
  "iteration_order (sorted_list_of_set :: pystr set \<Rightarrow> pystr list)
   \<and> known far_model (set [[0x0C05]]) \<union> known far_model (edits1 [0x0C05]) \<noteq> {}
   \<and> candidate_set sorted_list_of_set far_model [0x0C05] = {[0x0C05]}
   \<and> fst ` set (get_candidates sorted_list_of_set far_model [0x0C05]) = {[0x0C05]}
   \<and> [0x0C05, 0x0C06, 0x0C07] \<in> known far_model (set (edits2 sorted_list_of_set [0x0C05]))
   \<and> [0x0C05, 0x0C06, 0x0C07] \<notin> fst ` set (get_candidates sorted_list_of_set far_model [0x0C05])"
proof -
  have a: "iteration_order (sorted_list_of_set :: pystr set \<Rightarrow> pystr list)"
    by (rule iteration_order_sorted_list_of_set)
  have k0: "known far_model {[0x0C05]} = {[0x0C05]}"
    by (simp add: known_single far_model_def)
  have b: "known far_model (set [[0x0C05]]) \<union> known far_model (edits1 [0x0C05]) \<noteq> {}"
    by (simp add: k0)
  have c: "[0x0C05, 0x0C06, 0x0C07] \<in> known far_model (set (edits2 sorted_list_of_set [0x0C05]))"
    using far_word_in_edits2 [OF a] by (simp add: known_def far_model_def)
  show ?thesis
    using a b c tier_precedence [OF a b] by (simp add: k0 known_edits1_far)
qed

text \<open>
  Claim C5 asks for an explicit secondary key that orders candidates of equal frequency.
  The code has none: the sort key is the frequency alone, and the list that is sorted is
  the candidate set in its iteration order. In \<open>tied_model\<close> the two candidates of
  U+0C05 have the same count, and two iteration orders of the same set give two
  different ranked lists.
\<close>

theorem iteration_order_decides_ties:
  "iteration_order (sorted_list_of_set :: pystr set \<Rightarrow> pystr list)
   \<and> iteration_order (rev \<circ> (sorted_list_of_set :: pystr set \<Rightarrow> pystr list))
   \<and> get_candidates sorted_list_of_set tied_model [0x0C05] = [([0x0C05], 1), ([0x0C06], 1)]
   \<and> get_candidates (rev \<circ> sorted_list_of_set) tied_model [0x0C05] = [([0x0C06], 1), ([0x0C05], 1)]"
proof -
  have "get_candidates sorted_list_of_set tied_model [0x0C05] = [([0x0C05], 1), ([0x0C06], 1)]"
    unfolding get_candidates_tied
    by (simp add: sorted_by_freq_reverse_def WORDS_get_def tied_model_def)
  moreover have "get_candidates (rev \<circ> sorted_list_of_set) tied_model [0x0C05]
      = [([0x0C06], 1), ([0x0C05], 1)]"
    unfolding get_candidates_tied
    by (simp add: sorted_by_freq_reverse_def WORDS_get_def tied_model_def)
  ultimately show ?thesis
    by (simp add: iteration_order_sorted_list_of_set iteration_order_rev)
qed

text \<open>
  Claim C5, as amended. For a fixed model, word and iteration order the ranked list is
  one list; its frequencies never increase; for every frequency \<open>k\<close> the candidates
  of frequency \<open>k\<close> stand in the order in which the candidate set is iterated (the sort
  is stable and there is no secondary key). Two iteration orders give lists with the
  same members and the same sequence of frequencies.
\<close>

theorem ranking_by_frequency_only:
  assumes "iteration_order it" and "iteration_order it'"
  shows "sorted_wrt (\<lambda>x y. snd y \<le> snd x) (get_candidates it W word)
    \<and> (candidate_set it W word \<noteq> {} \<longrightarrow>
        (\<forall>k. filter (\<lambda>item. snd item = k) (get_candidates it W word) =
          map (\<lambda>c. (c, WORDS_get W c))
            (filter (\<lambda>c. WORDS_get W c = k) (it (candidate_set it W word)))))
    \<and> set (get_candidates it' W word) = set (get_candidates it W word)
    \<and> map snd (get_candidates it' W word) = map snd (get_candidates it W word)"
proof (cases "candidate_set it W word = {}")
  case True
  moreover from True have "candidate_set it' W word = {}"
    using candidate_set_order_free [OF assms] by simp
  ultimately show ?thesis by (simp add: get_candidates_def)
next
  case False
  let ?S = "candidate_set it W word"
  let ?g = "\<lambda>c. (c, WORDS_get W c)"
  have S': "candidate_set it' W word = ?S"
    by (rule candidate_set_order_free [OF assms])
  have gc: "get_candidates it W word = sorted_by_freq_reverse (map ?g (it ?S))"
    and gc': "get_candidates it' W word = sorted_by_freq_reverse (map ?g (it' ?S))"
    using False by (simp_all add: get_candidates_def S')
  have sets: "set (it ?S) = ?S" "set (it' ?S) = ?S"
    using assms finite_candidate_set by (simp_all add: iteration_order_def)
  have dist: "distinct (it ?S)" "distinct (it' ?S)"
    using assms finite_candidate_set by (simp_all add: iteration_order_def)
  have "mset (it' ?S) = mset (it ?S)"
    using dist sets by (simp add: set_eq_iff_mset_eq_distinct [symmetric])
  then have "mset (map ?g (it' ?S)) = mset (map ?g (it ?S))"
    by simp
  then have freqs: "map snd (get_candidates it' W word) = map snd (get_candidates it W word)"
    unfolding gc gc' by (rule frequencies_of_sorted)
  have members: "set (get_candidates it' W word) = set (get_candidates it W word)"
    by (simp add: gc gc' sorted_by_freq_reverse_def sets)
  have ties: "filter (\<lambda>item. snd item = k) (get_candidates it W word) =
      map ?g (filter (\<lambda>c. WORDS_get W c = k) (it ?S))" for k
    by (simp add: gc ties_keep_input_order filter_map o_def)
  have "sorted_wrt (\<lambda>x y. snd y \<le> snd x) (get_candidates it W word)"
    unfolding gc by (rule frequencies_non_increasing)
  with ties members freqs show ?thesis by blast
qed

theorem ranking_by_frequency_only_witness:
  "iteration_order (sorted_list_of_set :: pystr set \<Rightarrow> pystr list)
   \<and> iteration_order (rev \<circ> (sorted_list_of_set :: pystr set \<Rightarrow> pystr list))
   \<and> sorted_wrt (\<lambda>x y. snd y \<le> snd x) (get_candidates sorted_list_of_set tied_model [0x0C05])
   \<and> filter (\<lambda>item. snd item = 1) (get_candidates sorted_list_of_set tied_model [0x0C05]) =
       map (\<lambda>c. (c, WORDS_get tied_model c))
         (filter (\<lambda>c. WORDS_get tied_model c = 1)
           (sorted_list_of_set (candidate_set sorted_list_of_set tied_model [0x0C05])))
   \<and> set (get_candidates (rev \<circ> sorted_list_of_set) tied_model [0x0C05])
       = set (get_candidates sorted_list_of_set tied_model [0x0C05])
   \<and> map snd (get_candidates (rev \<circ> sorted_list_of_set) tied_model [0x0C05])
       = map snd (get_candidates sorted_list_of_set tied_model [0x0C05])"
proof -
  have a: "iteration_order (sorted_list_of_set :: pystr set \<Rightarrow> pystr list)"
    by (rule iteration_order_sorted_list_of_set)
  have b: "iteration_order (rev \<circ> (sorted_list_of_set :: pystr set \<Rightarrow> pystr list))"
    by (rule iteration_order_rev [OF a])
  have c: "candidate_set sorted_list_of_set tied_model [0x0C05] \<noteq> {}"
    by (simp add: candidate_set_tied)
  show ?thesis
    using a b c ranking_by_frequency_only [OF a b, of tied_model "[0x0C05]"] by blast
qed

text \<open>
  Claim C6. For a word that is not a key of the model, with no known word in
  \<open>edits1\<close> and none in \<open>edits2\<close>, \<open>get_candidates\<close> returns the one-element
  list of the word with frequency 0, and \<open>correct_word\<close> returns normally, with the
  word as its own best correction.
\<close>

theorem pass_through:
  assumes "word \<notin> dom W"
    and "known W (edits1 word) = {}"
    and "known W (set (edits2 it word)) = {}"
  shows "get_candidates it W word = [(word, 0)]
    \<and> correct_word it W word = Inr (word, [(word, 0)])"
proof -
  from assms have "candidate_set it W word = {}"
    by (simp add: candidate_set_def Let_def known_single)
  then have "get_candidates it W word = [(word, 0)]"
    by (simp add: get_candidates_def)
  then show ?thesis by (simp add: correct_word_def)
qed

theorem pass_through_witness:
  "[0x0C05] \<notin> dom remote_model
   \<and> known remote_model (edits1 [0x0C05]) = {}
   \<and> known remote_model (set (edits2 sorted_list_of_set [0x0C05])) = {}
   \<and> get_candidates sorted_list_of_set remote_model [0x0C05] = [([0x0C05], 0)]
   \<and> correct_word sorted_list_of_set remote_model [0x0C05] = Inr ([0x0C05], [([0x0C05], 0)])"
proof -
  have a: "[0x0C05] \<notin> dom remote_model" by (simp add: remote_model_def)
  have b: "known remote_model (edits1 [0x0C05]) = {}" by (rule known_edits1_remote)
  have c: "known remote_model (set (edits2 sorted_list_of_set [0x0C05])) = {}"
    by (rule known_edits2_remote) (rule iteration_order_sorted_list_of_set)
  show ?thesis using a b c pass_through [OF a b c] by simp
qed

text \<open>
  Claim C7. For every string, every model and every iteration order,
  \<open>get_candidates\<close> returns a non-empty list, and \<open>correct_word\<close> returns a pair
  (the first word of the ranked list, and the list): the read of element 0 never
  raises \<open>IndexError\<close>.
\<close>

theorem get_candidates_total:
  assumes "iteration_order it"
  shows "get_candidates it W word \<noteq> []
    \<and> (\<exists>best ranked. correct_word it W word = Inr (best, ranked)
          \<and> ranked = get_candidates it W word \<and> best = fst (hd ranked))"
  using get_candidates_not_Nil [OF assms] correct_word_hd by blast

theorem get_candidates_total_witness:
  "iteration_order (sorted_list_of_set :: pystr set \<Rightarrow> pystr list)
   \<and> get_candidates sorted_list_of_set example_model [0x0C06] \<noteq> []
   \<and> (\<exists>best ranked. correct_word sorted_list_of_set example_model [0x0C06] = Inr (best, ranked)
          \<and> ranked = get_candidates sorted_list_of_set example_model [0x0C06]
          \<and> best = fst (hd ranked))"
  using get_candidates_total [OF iteration_order_sorted_list_of_set, of example_model "[0x0C06]"]
  by (simp add: iteration_order_sorted_list_of_set)

text \<open>
  Claim C8 says that an absent or a corrupt model source both give an empty model. The
  constructor handles \<open>FileNotFoundError\<close> only: on a source that is not JSON the
  exception of \<open>json.load\<close> leaves the constructor, and no checker is built.
\<close>

theorem init_corrupt_raises:
  "init MODEL_PATH Corrupt = Inl JSONDecodeError"
  by (simp add: init_def open_and_load_def)

text \<open>
  Claim C8, as amended. When the model source is absent the constructor returns a
  checker with no known word, \<open>size() = 0\<close> and \<open>total() = 0\<close>, and an empty session
  state. When the source is corrupt the constructor raises.
\<close>

theorem init_absent_or_corrupt:
  "(\<exists>c. init path Absent = Inr c \<and> WORDS c = Map.empty \<and> size_of c = 0 \<and> total c = 0
        \<and> source_document c = None \<and> candidates_map c = Map.empty)
   \<and> init path Corrupt = Inl JSONDecodeError"
  by (simp add: init_def open_and_load_def size_of_def total_def)

text \<open>
  Claim C9. A call of \<open>correct_text\<close> returns normally; the map it returns has an
  entry exactly for the word spans whose best correction differs from the span, and
  the entry is the list of candidate words in ranked order; the state after the call
  holds the new text and this map, whatever the session state was before; and the
  value returned is the same from every state with the same \<open>WORDS\<close>. (The iteration
  order of sets is the parameter \<open>it\<close>, fixed throughout.)
\<close>

theorem correct_text_diagnostics:
  assumes "iteration_order it"
  shows "\<exists>out cmap.
      correct_text it isw self text =
        Inr ((out, cmap), self\<lparr>source_document := Some text, candidates_map := cmap\<rparr>)
    \<and> (\<forall>w. cmap w =
          (if w \<in> set (findall isw text) \<and> match_telugu w
              \<and> best_of (correct_word it (WORDS self) w) \<noteq> Some w
           then Some (map fst (get_candidates it (WORDS self) w)) else None))
    \<and> (\<forall>self'. WORDS self' = WORDS self \<longrightarrow>
          map_sum id fst (correct_text it isw self' text) = Inr (out, cmap))"
proof -
  from correct_parts_spec [OF assms, of "WORDS self" "findall isw text" "[]" Map.empty]
  obtain cp cmap where
    run: "correct_parts it (WORDS self) (findall isw text) ([], Map.empty) = Inr (cp, cmap)"
    and entries: "\<forall>w. cmap w =
          (if w \<in> set (findall isw text) \<and> match_telugu w
              \<and> best_of (correct_word it (WORDS self) w) \<noteq> Some w
           then Some (map fst (get_candidates it (WORDS self) w)) else None)"
    by auto
  have "correct_text it isw self text =
      Inr ((concat cp, cmap), self\<lparr>source_document := Some text, candidates_map := cmap\<rparr>)"
    using run by (simp add: correct_text_def Let_def)
  moreover have "map_sum id fst (correct_text it isw self' text) = Inr (concat cp, cmap)"
    if "WORDS self' = WORDS self" for self'
    using run that by (simp add: correct_text_def Let_def)
  ultimately show ?thesis using entries by blast
qed

theorem correct_text_diagnostics_witness:
  "iteration_order (sorted_list_of_set :: pystr set \<Rightarrow> pystr list)
   \<and> correct_text sorted_list_of_set word_class used_checker [0x0C05, 0x20, 0x0C06] =
       Inr (([0x0C06, 0x20, 0x0C06], [[0x0C05] \<mapsto> [[0x0C06], [0x0C05]]]),
            used_checker\<lparr>source_document := Some [0x0C05, 0x20, 0x0C06],
                          candidates_map := [[0x0C05] \<mapsto> [[0x0C06], [0x0C05]]]\<rparr>)"
proof -
  have a: "iteration_order (sorted_list_of_set :: pystr set \<Rightarrow> pystr list)"
    by (rule iteration_order_sorted_list_of_set)
  have w: "WORDS used_checker = example_model" by (simp add: used_checker_def)
  have "correct_text sorted_list_of_set word_class used_checker [0x0C05, 0x20, 0x0C06] =
       Inr (([0x0C06, 0x20, 0x0C06], [[0x0C05] \<mapsto> [[0x0C06], [0x0C05]]]),
            used_checker\<lparr>source_document := Some [0x0C05, 0x20, 0x0C06],
                          candidates_map := [[0x0C05] \<mapsto> [[0x0C06], [0x0C05]]]\<rparr>)"
    by (simp add: correct_text_def Let_def findall_example w match_telugu_def telugu_def
        correct_word_def get_candidates_example get_candidates_example2 del: findall.simps)
  with a correct_text_diagnostics [OF a, of word_class used_checker "[0x0C05, 0x20, 0x0C06]"]
  show ?thesis by simp
qed

text \<open>
  Claim C10. A word that holds at least one symbol of the alphabet is a member of its own
  \<open>edits1\<close>: replacing that symbol by itself is one of the replacements. So a member
  of \<open>edits1\<close> need not be at edit distance 1, and a known word with a symbol of the
  alphabet is a candidate of tier 0 and of tier 1 at once.
\<close>

theorem edits1_contains_word:
  assumes "c \<in> set word" and "c \<in> set TELUGU_ALPHABET"
  shows "word \<in> edits1 word
    \<and> (word \<in> dom W \<longrightarrow> word \<in> known W (set [word]) \<and> word \<in> known W (edits1 word))"
proof -
  from assms(1) obtain i where "i < length word" and "word ! i = c"
    by (auto simp: in_set_conv_nth)
  with assms(2) have "word \<in> set (replaces word)"
    by (auto intro: replace_self_in_replaces)
  then have "word \<in> edits1 word" by (simp add: edits1_def)
  then show ?thesis by (simp add: known_def)
qed

theorem edits1_contains_word_witness:
  "[0x0C05] \<in> edits1 [0x0C05]
   \<and> [0x0C05] \<in> known (Map.empty([0x0C05] \<mapsto> 7)) (set [[0x0C05]])
   \<and> [0x0C05] \<in> known (Map.empty([0x0C05] \<mapsto> 7)) (edits1 [0x0C05])"
  using edits1_contains_word [of "0x0C05" "[0x0C05]" "Map.empty([0x0C05] \<mapsto> 7)"]
  by (simp add: TELUGU_ALPHABET_def)

end
